theory Spec2Isabelle
  imports Main
begin

section \<open>Data model of server.js\<close>

text \<open>
  The relay keeps one process-wide structure, \<^verbatim>\<open>const channels = new Map()\<close>, a
  \<^verbatim>\<open>Map<channel, Set<ws>>\<close>. A WebSocket object is known by its identity only, so it
  is a number here. A JavaScript \<^verbatim>\<open>Set\<close> iterates in insertion order and holds no
  element twice: it is a list that \<open>set_add\<close> extends at the end and only when the element
  is new. Nothing in server.js iterates the \<^verbatim>\<open>Map\<close> itself, so it is a partial function
  from channel names to such lists.
\<close>

type_synonym ws = nat

datatype ready_state = CONNECTING | OPEN | CLOSING | CLOSED

text \<open>
  The values \<^verbatim>\<open>express.json()\<close> can put into \<^verbatim>\<open>req.body.message\<close>. Numbers are
  restricted to integers: fractional and non-finite doubles are outside this model.
\<close>

datatype json =
    JNull
  | JBool bool
  | JNum int
  | JStr string
  | JArr "json list"
  | JObj "(string \<times> json) list"

text \<open>What \<^verbatim>\<open>res.status(code).json(obj)\<close> hands back to the HTTP caller.\<close>

record response =
  status :: nat
  body :: json

text \<open>
  The state the handlers read and write:
  \<^item> \<open>channels\<close>: the registry;
  \<^item> \<open>readyState\<close>: the \<^verbatim>\<open>readyState\<close> property of each socket; the ws library owns it,
    the handlers of server.js only read it;
  \<^item> \<open>sent\<close>: the calls \<^verbatim>\<open>client.send(data)\<close> made so far, oldest first, with the object
    that \<^verbatim>\<open>JSON.stringify\<close> was applied to (serialisation is left to the transport);
  \<^item> \<open>closeCalls\<close>: the calls \<^verbatim>\<open>ws.close(code, reason)\<close> made so far;
  \<^item> \<open>closeListeners\<close>: the listeners registered by \<^verbatim>\<open>ws.on('close', ...)\<close>, each one a
    closure over the channel of its connection, in registration order.
\<close>

record server =
  channels :: "string \<rightharpoonup> ws list"
  readyState :: "ws \<Rightarrow> ready_state"
  sent :: "(ws \<times> json) list"
  closeCalls :: "(ws \<times> nat \<times> string) list"
  closeListeners :: "ws \<Rightarrow> string list"

text \<open>The state at process start: an empty \<^verbatim>\<open>Map\<close>, nothing sent, nothing closed.\<close>

definition init :: "(ws \<Rightarrow> ready_state) \<Rightarrow> server" where
  "init rs = \<lparr>channels = Map.empty, readyState = rs, sent = [], closeCalls = [],
     closeListeners = (\<lambda>_. [])\<rparr>"

section \<open>Operations\<close>

subsection \<open>\<^verbatim>\<open>Set.prototype.add\<close>, \<^verbatim>\<open>Set.prototype.delete\<close>\<close>

definition set_add :: "ws list \<Rightarrow> ws \<Rightarrow> ws list" where
  "set_add clients x = (if x \<in> set clients then clients else clients @ [x])"

definition set_delete :: "ws list \<Rightarrow> ws \<Rightarrow> ws list" where
  "set_delete clients x = removeAll x clients"

subsection \<open>The route \<^verbatim>\<open>POST /send/:channel\<close> (server.js, lines 32 to 52)\<close>

text \<open>
  \<^verbatim>\<open>!message\<close>: a missing property (\<^verbatim>\<open>undefined\<close>), \<^verbatim>\<open>null\<close>, \<^verbatim>\<open>false\<close>, \<^verbatim>\<open>0\<close> and the
  empty string are falsy; arrays and objects never are.
\<close>

fun falsy :: "json option \<Rightarrow> bool" where
  "falsy None = True"
| "falsy (Some JNull) = True"
| "falsy (Some (JBool b)) = (\<not> b)"
| "falsy (Some (JNum n)) = (n = 0)"
| "falsy (Some (JStr s)) = (s = [])"
| "falsy (Some (JArr xs)) = False"
| "falsy (Some (JObj kvs)) = False"

text \<open>
  \<^verbatim>\<open>client.send(data)\<close> on an open socket: the frame is handed to the socket and the
  call returns. The ws library reports a failed write later, through the socket's
  events, so nothing runs between two iterations of the loop below.
\<close>

definition send :: "server \<Rightarrow> ws \<Rightarrow> json \<Rightarrow> server" where
  "send st client data = st\<lparr>sent := sent st @ [(client, data)]\<rparr>"

text \<open>
  Lines 45 to 49, \<^verbatim>\<open>clients.forEach(client => { if (client.readyState === WebSocket.OPEN)
  client.send(...) })\<close>: the loop over the set, in insertion order.
\<close>

fun forEach_send :: "ws list \<Rightarrow> json \<Rightarrow> server \<Rightarrow> server" where
  "forEach_send [] data st = st"
| "forEach_send (client # clients) data st =
     forEach_send clients data
       (if readyState st client = OPEN then send st client data else st)"

text \<open>The object literal \<^verbatim>\<open>{ channel, message }\<close> of line 47.\<close>

definition envelope :: "string \<Rightarrow> json \<Rightarrow> json" where
  "envelope chan msg = JObj [(''channel'', JStr chan), (''message'', msg)]"

text \<open>
  Lines 40 to 51: what the route does with a message that passed the check of line 36.
  An absent channel answers 200 at once; a present one is iterated and answers 200.
\<close>

definition publish :: "server \<Rightarrow> string \<Rightarrow> json \<Rightarrow> response \<times> server" where
  "publish st chan msg =
     (case channels st chan of
        None \<Rightarrow>
          (\<lparr>status = 200,
            body = JObj [(''status'', JStr ''No subscribers, but message accepted'')]\<rparr>, st)
      | Some clients \<Rightarrow>
          (\<lparr>status = 200, body = JObj [(''status'', JStr ''Message sent'')]\<rparr>,
           forEach_send clients (envelope chan msg) st))"

text \<open>
  The whole callback, after \<^verbatim>\<open>express.json()\<close> and \<^verbatim>\<open>authMiddleware\<close> have let the request
  through: \<open>chan\<close> is \<^verbatim>\<open>req.params.channel\<close>, \<open>msg\<close> is \<^verbatim>\<open>req.body.message\<close>.
\<close>

definition send_route :: "server \<Rightarrow> string \<Rightarrow> json option \<Rightarrow> response \<times> server" where
  "send_route st chan msg =
     (case msg of
        None \<Rightarrow> (\<lparr>status = 400, body = JObj [(''error'', JStr ''Missing message in body'')]\<rparr>, st)
      | Some m \<Rightarrow>
          if falsy (Some m)
          then (\<lparr>status = 400, body = JObj [(''error'', JStr ''Missing message in body'')]\<rparr>, st)
          else publish st chan m)"

subsection \<open>The \<^verbatim>\<open>connection\<close> handler (server.js, lines 55 to 76)\<close>

text \<open>
  Lines 67 to 75, the body of the \<^verbatim>\<open>close\<close> listener. \<open>chan\<close> and \<open>sock\<close> are the
  variables \<^verbatim>\<open>channel\<close> and \<^verbatim>\<open>ws\<close> the closure captured. \<^verbatim>\<open>if (clients)\<close> fails exactly
  when the \<^verbatim>\<open>Map\<close> has no entry for the channel.
\<close>

definition close_handler :: "string \<Rightarrow> ws \<Rightarrow> server \<Rightarrow> server" where
  "close_handler chan sock st =
     (case channels st chan of
        None \<Rightarrow> st
      | Some clients \<Rightarrow>
          (let clients' = set_delete clients sock;
               st1 = st\<lparr>channels := (channels st)(chan \<mapsto> clients')\<rparr>
           in if length clients' = 0
              then st1\<lparr>channels := (channels st1)(chan := None)\<rparr>
              else st1))"

text \<open>
  Lines 55 to 76. \<open>url\<close> is \<^verbatim>\<open>req.url\<close>; \<^verbatim>\<open>substring(1)\<close> drops its first character.
  An empty channel closes the socket with code 1008 and returns before anything is
  registered; \<^verbatim>\<open>ws.close\<close> belongs to the ws library, its call is recorded. Otherwise the set is created when absent (lines 62 to 64), the socket is
  added (line 65; the entry exists by then, see \<open>ensure_channel_present\<close>, so the
  \<open>None\<close> branch of \<open>add_client\<close>, where JavaScript would raise a TypeError, is never
  taken), and the \<^verbatim>\<open>close\<close> listener is registered (line 67).
\<close>

definition ensure_channel :: "server \<Rightarrow> string \<Rightarrow> server" where
  "ensure_channel st chan =
     (if channels st chan = None then st\<lparr>channels := (channels st)(chan \<mapsto> [])\<rparr> else st)"

definition add_client :: "server \<Rightarrow> string \<Rightarrow> ws \<Rightarrow> server" where
  "add_client st chan sock =
     (case channels st chan of
        None \<Rightarrow> st
      | Some clients \<Rightarrow> st\<lparr>channels := (channels st)(chan \<mapsto> set_add clients sock)\<rparr>)"

definition on_close :: "server \<Rightarrow> ws \<Rightarrow> string \<Rightarrow> server" where
  "on_close st sock chan =
     st\<lparr>closeListeners := (closeListeners st)(sock := closeListeners st sock @ [chan])\<rparr>"

definition connection :: "server \<Rightarrow> ws \<Rightarrow> string \<Rightarrow> server" where
  "connection st sock url =
     (let chan = drop 1 url in
      if chan = []
      then st\<lparr>closeCalls := closeCalls st @ [(sock, 1008, ''Channel required in URL'')]\<rparr>
      else on_close (add_client (ensure_channel st chan) chan sock) sock chan)"

text \<open>
  The socket emitting \<^verbatim>\<open>close\<close>: every listener registered on it runs, in registration
  order.
\<close>

fun run_listeners :: "string list \<Rightarrow> ws \<Rightarrow> server \<Rightarrow> server" where
  "run_listeners [] sock st = st"
| "run_listeners (chan # chans) sock st = run_listeners chans sock (close_handler chan sock st)"

definition emit_close :: "server \<Rightarrow> ws \<Rightarrow> server" where
  "emit_close st sock = run_listeners (closeListeners st sock) sock st"

section \<open>Notions the properties are stated with\<close>

text \<open>The handle set of a channel: empty when the channel has no entry.\<close>

definition subscribers :: "server \<Rightarrow> string \<Rightarrow> ws list" where
  "subscribers st chan = (case channels st chan of None \<Rightarrow> [] | Some clients \<Rightarrow> clients)"

text \<open>The registry invariant: a channel has an entry exactly when its handle set is non-empty.\<close>

definition pruned :: "server \<Rightarrow> bool" where
  "pruned st = (\<forall>chan. (channels st chan \<noteq> None) = (subscribers st chan \<noteq> []))"

text \<open>The frames handed to sockets between an earlier state and a later one, and their number.\<close>

definition new_frames :: "server \<Rightarrow> server \<Rightarrow> (ws \<times> json) list" where
  "new_frames st st' = drop (length (sent st)) (sent st')"

definition delivered :: "server \<Rightarrow> server \<Rightarrow> nat" where
  "delivered st st' = length (new_frames st st')"

text \<open>The handles of a list that are live (\<^verbatim>\<open>readyState === WebSocket.OPEN\<close>).\<close>

definition live :: "server \<Rightarrow> ws list \<Rightarrow> ws list" where
  "live st clients = filter (\<lambda>client. readyState st client = OPEN) clients"

text \<open>
  A list of sockets connecting to the same URL one after the other, and the \<^verbatim>\<open>close\<close>
  listeners of a list of sockets running one after the other for one channel.
\<close>

fun subscribe_all :: "server \<Rightarrow> string \<Rightarrow> ws list \<Rightarrow> server" where
  "subscribe_all st url [] = st"
| "subscribe_all st url (h # hs) = subscribe_all (connection st h url) url hs"

fun unsubscribe_all :: "string \<Rightarrow> ws list \<Rightarrow> server \<Rightarrow> server" where
  "unsubscribe_all chan [] st = st"
| "unsubscribe_all chan (h # hs) st = unsubscribe_all chan hs (close_handler chan h st)"

section \<open>Concrete states\<close>

text \<open>
  Two sockets, 1 and then 2, connect to \<^verbatim>\<open>ws://host/room1\<close> on a fresh server:
  \<open>room1_one\<close> is the state after the first connection, \<open>room1_two\<close> the state after
  the second, both sockets open. In \<open>room1_stale\<close> socket 2 has started closing and
  its \<^verbatim>\<open>close\<close> event has not fired yet.
\<close>

definition all_open :: "ws \<Rightarrow> ready_state" where
  "all_open = (\<lambda>_. OPEN)"

definition room1_one :: server where
  "room1_one = connection (init all_open) 1 ''/room1''"

definition room1_two :: server where
  "room1_two = connection room1_one 2 ''/room1''"

definition room1_stale :: server where
  "room1_stale = room1_two\<lparr>readyState := all_open(2 := CLOSING)\<rparr>"

section \<open>Basic facts\<close>

lemma forEach_send_fields:
  "channels (forEach_send clients data st) = channels st"
  "readyState (forEach_send clients data st) = readyState st"
  "closeCalls (forEach_send clients data st) = closeCalls st"
  "closeListeners (forEach_send clients data st) = closeListeners st"
  by (induction clients arbitrary: st) (simp_all add: send_def)

lemma forEach_send_sent:
  "sent (forEach_send clients data st) =
     sent st @ map (\<lambda>client. (client, data)) (live st clients)"
proof (induction clients arbitrary: st)
  case Nil
  show ?case by (simp add: live_def)
next
  case (Cons client clients)
  have rs: "readyState (send st client data) = readyState st"
    by (simp add: send_def)
  show ?case
  proof (cases "readyState st client = OPEN")
    case True
    then show ?thesis
      using Cons.IH [of "send st client data"] rs
      by (simp add: live_def send_def)
  next
    case False
    then show ?thesis
      using Cons.IH [of st] by (simp add: live_def)
  qed
qed

lemma ensure_channel_present: "channels (ensure_channel st chan) chan \<noteq> None"
  by (simp add: ensure_channel_def)

lemma room1_two_channels: "channels room1_two = [''room1'' \<mapsto> [1, 2]]"
  by (simp add: room1_two_def room1_one_def connection_def init_def on_close_def add_client_def
      ensure_channel_def set_add_def Let_def)

lemma room1_two_sent: "sent room1_two = []"
  by (simp add: room1_two_def room1_one_def connection_def init_def on_close_def add_client_def
      ensure_channel_def set_add_def Let_def)

lemma room1_two_readyState: "readyState room1_two = all_open"
  by (simp add: room1_two_def room1_one_def connection_def init_def on_close_def add_client_def
      ensure_channel_def set_add_def Let_def)

lemma room1_stale_fields:
  "channels room1_stale = [''room1'' \<mapsto> [1, 2]]"
  "sent room1_stale = []"
  "readyState room1_stale = all_open(2 := CLOSING)"
  by (simp_all add: room1_stale_def room1_two_channels room1_two_sent)

lemma publish_present:
  "channels st chan = Some clients \<Longrightarrow>
   publish st chan msg =
     (\<lparr>status = 200, body = JObj [(''status'', JStr ''Message sent'')]\<rparr>,
      forEach_send clients (envelope chan msg) st)"
  by (simp add: publish_def)

lemma publish_absent:
  "channels st chan = None \<Longrightarrow>
   publish st chan msg =
     (\<lparr>status = 200,
       body = JObj [(''status'', JStr ''No subscribers, but message accepted'')]\<rparr>, st)"
  by (simp add: publish_def)

lemma publish_channels: "channels (snd (publish st chan msg)) = channels st"
  by (simp add: publish_def forEach_send_fields split: option.splits)

lemma publish_new_frames:
  "channels st chan = Some clients \<Longrightarrow>
   new_frames st (snd (publish st chan msg)) =
     map (\<lambda>client. (client, envelope chan msg)) (live st clients)"
  by (simp add: publish_present new_frames_def forEach_send_sent)

lemma send_route_publish:
  "\<not> falsy (Some msg) \<Longrightarrow> send_route st chan (Some msg) = publish st chan msg"
  by (simp add: send_route_def)

lemma pruned_iff: "pruned st = (\<forall>chan. channels st chan \<noteq> Some [])"
  by (auto simp: pruned_def subscribers_def split: option.splits)

lemma subscribers_eq: "channels st' = channels st \<Longrightarrow> subscribers st' = subscribers st"
  by (simp add: subscribers_def fun_eq_iff)

lemma connection_empty:
  "drop 1 url = [] \<Longrightarrow>
   connection st sock url =
     st\<lparr>closeCalls := closeCalls st @ [(sock, 1008, ''Channel required in URL'')]\<rparr>"
  by (simp add: connection_def)

lemma connection_channels:
  assumes "drop 1 url = chan" "chan \<noteq> []"
  shows "channels (connection st sock url) =
           (channels st)(chan \<mapsto> set_add (subscribers st chan) sock)"
  using assms
  by (cases "channels st chan")
     (simp_all add: connection_def on_close_def add_client_def ensure_channel_def
        subscribers_def)

lemma connection_readyState: "readyState (connection st sock url) = readyState st"
  by (simp add: connection_def on_close_def add_client_def ensure_channel_def Let_def
      split: option.splits)

lemma connection_sent: "sent (connection st sock url) = sent st"
  by (simp add: connection_def on_close_def add_client_def ensure_channel_def Let_def
      split: option.splits)

lemma close_handler_channels:
  "channels (close_handler chan sock st) =
     (case channels st chan of
        None \<Rightarrow> channels st
      | Some clients \<Rightarrow>
          if removeAll sock clients = [] then (channels st)(chan := None)
          else (channels st)(chan \<mapsto> removeAll sock clients))"
  by (simp add: close_handler_def set_delete_def Let_def split: option.splits)

lemma close_handler_subscribers:
  "subscribers (close_handler chan sock st) chan = removeAll sock (subscribers st chan)"
  by (simp add: subscribers_def close_handler_channels split: option.splits)

lemma pruned_init: "pruned (init rs)"
  by (simp add: pruned_iff init_def)

lemma pruned_connection: "pruned st \<Longrightarrow> pruned (connection st sock url)"
proof (cases "drop 1 url = []")
  case True
  assume "pruned st"
  then show ?thesis by (simp add: pruned_iff connection_empty [OF True])
next
  case False
  assume "pruned st"
  then show ?thesis
    by (auto simp: pruned_iff connection_channels [OF refl False] set_add_def)
qed

lemma pruned_close_handler: "pruned st \<Longrightarrow> pruned (close_handler chan sock st)"
  by (simp add: pruned_iff close_handler_channels split: option.splits)

lemma pruned_run_listeners: "pruned st \<Longrightarrow> pruned (run_listeners chans sock st)"
  by (induction chans arbitrary: st) (simp_all add: pruned_close_handler)

lemma pruned_emit_close: "pruned st \<Longrightarrow> pruned (emit_close st sock)"
  by (simp add: emit_close_def pruned_run_listeners)

lemma send_route_channels: "channels (snd (send_route st chan msg)) = channels st"
  by (simp add: send_route_def publish_channels split: option.splits)

lemma pruned_publish: "pruned st \<Longrightarrow> pruned (snd (publish st chan msg))"
  by (simp add: pruned_iff publish_channels)

lemma pruned_send_route: "pruned st \<Longrightarrow> pruned (snd (send_route st chan msg))"
  by (simp add: pruned_iff send_route_channels)

lemma set_live: "set (live st clients) = {client \<in> set clients. readyState st client = OPEN}"
  by (simp add: live_def)

lemma distinct_set_add: "distinct clients \<Longrightarrow> distinct (set_add clients x)"
  by (simp add: set_add_def)

lemma frames_of_one:
  "distinct clients \<Longrightarrow> x \<in> set clients \<Longrightarrow> P x \<Longrightarrow>
   length (filter (\<lambda>f. fst f = x) (map (\<lambda>client. (client, data)) (filter P clients))) = 1"
  by (induction clients) (auto simp: filter_empty_conv)

lemma room1_one_channels: "channels room1_one = [''room1'' \<mapsto> [1]]"
  by (simp add: room1_one_def connection_def init_def on_close_def add_client_def
      ensure_channel_def set_add_def Let_def)

lemma pruned_room1_two: "pruned room1_two"
  by (simp add: pruned_iff room1_two_channels)

lemma connection_subscribers:
  assumes "drop 1 url = chan" "chan \<noteq> []"
  shows "subscribers (connection st sock url) chan = set_add (subscribers st chan) sock"
  by (simp add: subscribers_def connection_channels [OF assms])

lemma close_handler_noop:
  assumes "channels st chan = Some clients" "sock \<notin> set clients" "clients \<noteq> []"
  shows "close_handler chan sock st = st"
  using assms by (simp add: close_handler_def set_delete_def Let_def map_upd_triv)

lemma emit_close_fresh:
  assumes "drop 1 url = chan" "chan \<noteq> []" "closeListeners st sock = []"
  shows "emit_close (connection st sock url) sock =
           close_handler chan sock (connection st sock url)"
  using assms
  by (simp add: emit_close_def connection_def on_close_def add_client_def ensure_channel_def
      split: option.splits)

lemma room1_two_closeListeners: "closeListeners room1_two 3 = []"
  by (simp add: room1_two_def room1_one_def connection_def init_def on_close_def
      add_client_def ensure_channel_def set_add_def Let_def)

lemma room1_two_closeCalls: "closeCalls room1_two = []"
  by (simp add: room1_two_def room1_one_def connection_def init_def on_close_def
      add_client_def ensure_channel_def set_add_def Let_def)

lemma set_set_add: "set (set_add clients x) = insert x (set clients)"
  by (auto simp: set_add_def)

lemma subscribe_all_subscribers:
  assumes "drop 1 url = chan" "chan \<noteq> []"
  shows "set (subscribers (subscribe_all st url hs) chan) = set (subscribers st chan) \<union> set hs"
proof (induction hs arbitrary: st)
  case Nil
  show ?case by simp
next
  case (Cons h hs)
  show ?case
    by (simp add: Cons.IH connection_subscribers [OF assms] set_set_add)
qed

lemma unsubscribe_all_subscribers:
  "set (subscribers (unsubscribe_all chan hs st) chan) = set (subscribers st chan) - set hs"
proof (induction hs arbitrary: st)
  case Nil
  show ?case by simp
next
  case (Cons h hs)
  show ?case
    by (auto simp: Cons.IH close_handler_subscribers)
qed

lemma pruned_subscribe_all: "pruned st \<Longrightarrow> pruned (subscribe_all st url hs)"
  by (induction hs arbitrary: st) (simp_all add: pruned_connection)

lemma pruned_unsubscribe_all: "pruned st \<Longrightarrow> pruned (unsubscribe_all chan hs st)"
  by (induction hs arbitrary: st) (simp_all add: pruned_close_handler)

lemma pruned_absent: "pruned st \<Longrightarrow> subscribers st chan = [] \<Longrightarrow> channels st chan = None"
  by (auto simp: pruned_def)

lemma pruned_room1_one: "pruned room1_one"
  by (simp add: pruned_iff room1_one_channels)

section \<open>Publishing\<close>

text \<open>
  Claim C1, as stated, fails on the value returned. With sockets 1 and 2 both open in
  room1 the publisher gets \<^verbatim>\<open>200 {status: 'Message sent'}\<close>, which is not the number 2,
  and gets the very same answer when only one of the two is live: the answer does not
  tell the number of live handles.
\<close>

theorem publish_count_counterexample:
  "fst (send_route room1_two ''room1'' (Some (JStr ''hello''))) =
     \<lparr>status = 200, body = JObj [(''status'', JStr ''Message sent'')]\<rparr>
   \<and> body (fst (send_route room1_two ''room1'' (Some (JStr ''hello'')))) \<noteq> JNum 2
   \<and> length (live room1_two (subscribers room1_two ''room1'')) = 2
   \<and> fst (send_route room1_stale ''room1'' (Some (JStr ''hello''))) =
       fst (send_route room1_two ''room1'' (Some (JStr ''hello'')))
   \<and> length (live room1_stale (subscribers room1_stale ''room1'')) = 1"
  by (simp add: send_route_def publish_def subscribers_def live_def room1_two_channels
      room1_two_readyState room1_stale_fields all_open_def)

text \<open>
  Claim C1, amended: when channel \<open>chan\<close> has the handle set \<open>clients\<close> (such as
  \<open>{h1, h2}\<close>), publishing a message \<open>msg\<close> that passes the check of line 36 hands
  the envelope \<^verbatim>\<open>{channel, message}\<close> to every
  handle of the set that is open, once each and in insertion order, so the number of
  frames handed out is the number of live handles; the publisher is answered
  \<^verbatim>\<open>200 {status: 'Message sent'}\<close>, which carries no count.
\<close>

theorem publish_delivers_to_live:
  assumes "channels st chan = Some clients" "\<not> falsy (Some msg)"
  shows "new_frames st (snd (send_route st chan (Some msg))) =
           map (\<lambda>client. (client, envelope chan msg)) (live st clients)
       \<and> delivered st (snd (send_route st chan (Some msg))) = length (live st clients)
       \<and> fst (send_route st chan (Some msg)) =
           \<lparr>status = 200, body = JObj [(''status'', JStr ''Message sent'')]\<rparr>"
proof -
  have route: "send_route st chan (Some msg) = publish st chan msg"
    using assms(2) by (rule send_route_publish)
  have frames: "new_frames st (snd (send_route st chan (Some msg))) =
      map (\<lambda>client. (client, envelope chan msg)) (live st clients)"
    unfolding route using assms(1) by (rule publish_new_frames)
  have count: "delivered st (snd (send_route st chan (Some msg))) = length (live st clients)"
    unfolding delivered_def frames by simp
  have answer: "fst (send_route st chan (Some msg)) =
      \<lparr>status = 200, body = JObj [(''status'', JStr ''Message sent'')]\<rparr>"
    unfolding route using assms(1) by (simp add: publish_present)
  from frames count answer show ?thesis by blast
qed

theorem publish_delivers_to_live_witness:
  "channels room1_two ''room1'' = Some [1, 2] \<and> \<not> falsy (Some (JStr ''hello''))
   \<and> new_frames room1_two (snd (send_route room1_two ''room1'' (Some (JStr ''hello'')))) =
       [(1, envelope ''room1'' (JStr ''hello'')), (2, envelope ''room1'' (JStr ''hello''))]
   \<and> delivered room1_two (snd (send_route room1_two ''room1'' (Some (JStr ''hello'')))) = 2
   \<and> fst (send_route room1_two ''room1'' (Some (JStr ''hello''))) =
       \<lparr>status = 200, body = JObj [(''status'', JStr ''Message sent'')]\<rparr>"
proof -
  have h: "channels room1_two ''room1'' = Some [1, 2]"
    by (simp add: room1_two_channels)
  have v: "\<not> falsy (Some (JStr ''hello''))"
    by simp
  have l: "live room1_two [1, 2] = [1, 2]"
    by (simp add: live_def room1_two_readyState all_open_def)
  show ?thesis
    using h l publish_delivers_to_live [OF h v] by simp
qed

text \<open>
  Claim C2, as stated, fails on the value returned. Room2 has no entry in the registry;
  publishing to it is answered \<^verbatim>\<open>200 {status: 'No subscribers, but message accepted'}\<close>:
  a notice, not the number 0. No delivery count is returned.
\<close>

theorem absent_channel_answer_counterexample:
  "channels room1_two ''room2'' = None
   \<and> fst (send_route room1_two ''room2'' (Some (JStr ''hello''))) =
       \<lparr>status = 200,
        body = JObj [(''status'', JStr ''No subscribers, but message accepted'')]\<rparr>
   \<and> body (fst (send_route room1_two ''room2'' (Some (JStr ''hello'')))) \<noteq> JNum 0"
  by (simp add: send_route_def publish_def room1_two_channels)

text \<open>
  Claim C2, amended: publishing a message that passes the check of line 36 to a channel
  that has no entry in the registry is reported to the caller as success, not as an
  error: the answer is status 200 with the notice that there are no subscribers, and it
  carries no delivery count. No frame is handed to any socket and the state is left as
  it was: the message is dropped.
\<close>

theorem publish_absent_channel:
  assumes "channels st chan = None" "\<not> falsy (Some msg)"
  shows "send_route st chan (Some msg) =
           (\<lparr>status = 200,
             body = JObj [(''status'', JStr ''No subscribers, but message accepted'')]\<rparr>, st)
       \<and> new_frames st (snd (send_route st chan (Some msg))) = []"
proof -
  have route: "send_route st chan (Some msg) = publish st chan msg"
    using assms(2) by (rule send_route_publish)
  show ?thesis
    unfolding route using assms(1) by (simp add: publish_absent new_frames_def)
qed

theorem publish_absent_channel_witness:
  "channels room1_two ''room2'' = None \<and> \<not> falsy (Some (JStr ''hello''))
   \<and> send_route room1_two ''room2'' (Some (JStr ''hello'')) =
       (\<lparr>status = 200,
         body = JObj [(''status'', JStr ''No subscribers, but message accepted'')]\<rparr>,
        room1_two)
   \<and> new_frames room1_two (snd (send_route room1_two ''room2'' (Some (JStr ''hello'')))) = []"
proof -
  have h: "channels room1_two ''room2'' = None"
    by (simp add: room1_two_channels)
  have v: "\<not> falsy (Some (JStr ''hello''))"
    by simp
  note w = publish_absent_channel [OF h v]
  show ?thesis
    by (intro conjI h v w [THEN conjunct1] w [THEN conjunct2])
qed

text \<open>
  Claim C3, as stated, fails on the removal. Socket 2 of room1 is closing, so it is not
  live; publishing to room1 leaves it in the set of room1.
\<close>

theorem stale_handle_kept_counterexample:
  "readyState room1_stale 2 \<noteq> OPEN
   \<and> channels room1_stale ''room1'' = Some [1, 2]
   \<and> channels (snd (send_route room1_stale ''room1'' (Some (JStr ''hello'')))) ''room1'' = Some [1, 2]
   \<and> 2 \<in> set (subscribers (snd (send_route room1_stale ''room1'' (Some (JStr ''hello'')))) ''room1'')"
  by (simp add: send_route_channels subscribers_def room1_stale_fields)

text \<open>
  Claim C3, amended: a handle \<open>h\<close> of the channel's set that is not open when the message
  is published gets no frame, every open handle of the set still gets the envelope, and
  \<open>h\<close> stays in the set: publishing removes nothing. It is the \<^verbatim>\<open>close\<close> listener of
  \<open>h\<close> that takes it out of the set.
\<close>

theorem publish_skips_stale_handle:
  assumes "channels st chan = Some clients" "h \<in> set clients" "readyState st h \<noteq> OPEN"
    and "\<not> falsy (Some msg)"
  shows "h \<notin> fst ` set (new_frames st (snd (send_route st chan (Some msg))))
       \<and> (\<forall>h' \<in> set clients. readyState st h' = OPEN \<longrightarrow>
            (h', envelope chan msg) \<in> set (new_frames st (snd (send_route st chan (Some msg)))))
       \<and> h \<in> set (subscribers (snd (send_route st chan (Some msg))) chan)
       \<and> h \<notin> set (subscribers (close_handler chan h (snd (send_route st chan (Some msg)))) chan)"
proof -
  have route: "send_route st chan (Some msg) = publish st chan msg"
    using assms(4) by (rule send_route_publish)
  have frames: "new_frames st (snd (send_route st chan (Some msg))) =
      map (\<lambda>client. (client, envelope chan msg)) (live st clients)"
    unfolding route using assms(1) by (rule publish_new_frames)
  have skipped: "h \<notin> fst ` set (new_frames st (snd (send_route st chan (Some msg))))"
    using assms(3) by (auto simp: frames set_live)
  have others: "\<forall>h' \<in> set clients. readyState st h' = OPEN \<longrightarrow>
      (h', envelope chan msg) \<in> set (new_frames st (snd (send_route st chan (Some msg))))"
    by (auto simp: frames set_live)
  have kept: "h \<in> set (subscribers (snd (send_route st chan (Some msg))) chan)"
    using assms(1,2) by (simp add: subscribers_def send_route_channels)
  have closed: "h \<notin> set (subscribers (close_handler chan h (snd (send_route st chan (Some msg)))) chan)"
    by (simp add: close_handler_subscribers)
  from skipped others kept closed show ?thesis by blast
qed

theorem publish_skips_stale_handle_witness:
  "channels room1_stale ''room1'' = Some [1, 2] \<and> 2 \<in> set [1, 2::nat]
   \<and> readyState room1_stale 2 \<noteq> OPEN \<and> \<not> falsy (Some (JStr ''hello''))
   \<and> 2 \<notin> fst ` set (new_frames room1_stale (snd (send_route room1_stale ''room1'' (Some (JStr ''hello'')))))
   \<and> (1, envelope ''room1'' (JStr ''hello''))
        \<in> set (new_frames room1_stale (snd (send_route room1_stale ''room1'' (Some (JStr ''hello'')))))
   \<and> 2 \<in> set (subscribers (snd (send_route room1_stale ''room1'' (Some (JStr ''hello'')))) ''room1'')
   \<and> 2 \<notin> set (subscribers
        (close_handler ''room1'' 2 (snd (send_route room1_stale ''room1'' (Some (JStr ''hello'')))))
        ''room1'')"
proof -
  have c: "channels room1_stale ''room1'' = Some [1, 2]"
    by (simp add: room1_stale_fields)
  have m: "2 \<in> set [1, 2::nat]"
    by simp
  have r: "readyState room1_stale 2 \<noteq> OPEN"
    by (simp add: room1_stale_fields)
  have v: "\<not> falsy (Some (JStr ''hello''))"
    by simp
  have o: "readyState room1_stale 1 = OPEN"
    by (simp add: room1_stale_fields all_open_def)
  show ?thesis
    using c m r o publish_skips_stale_handle [OF c m r v] by simp
qed

text \<open>
  Claim C10: publishing never changes the registry, whatever the state, the channel and
  the message, live handles or not: neither the part of the route after the message
  check nor the whole route writes to the \<^verbatim>\<open>Map\<close> or to a \<^verbatim>\<open>Set\<close> in it.
\<close>

theorem publish_leaves_registry:
  "channels (snd (publish st chan msg)) = channels st
   \<and> channels (snd (send_route st chan body_msg)) = channels st"
  by (simp add: publish_channels send_route_channels)

theorem publish_leaves_registry_witness:
  "readyState room1_stale 2 \<noteq> OPEN
   \<and> channels (snd (publish room1_stale ''room1'' (JStr ''hello''))) = [''room1'' \<mapsto> [1, 2]]
   \<and> channels (snd (send_route room1_stale ''room1'' (Some (JStr ''hello'')))) =
       [''room1'' \<mapsto> [1, 2]]"
proof -
  have r: "readyState room1_stale 2 \<noteq> OPEN"
    by (simp add: room1_stale_fields)
  note w = publish_leaves_registry
    [of room1_stale "''room1''" "JStr ''hello''" "Some (JStr ''hello'')",
      unfolded room1_stale_fields(1)]
  show ?thesis
    by (intro conjI r w [THEN conjunct1] w [THEN conjunct2])
qed

section \<open>The registry\<close>

text \<open>
  Claim C4: a channel has an entry in the registry exactly when its handle set is
  non-empty, and every operation keeps it so: a connection (subscribe), the \<^verbatim>\<open>close\<close>
  listener and the \<^verbatim>\<open>close\<close> event running it (unsubscribe), and the route that
  publishes. The empty registry of process start satisfies it by \<open>pruned_init\<close>.
\<close>

theorem registry_invariant_preserved:
  assumes "pruned st"
  shows "pruned (connection st sock url)
       \<and> pruned (close_handler chan sock st)
       \<and> pruned (emit_close st sock)
       \<and> pruned (snd (publish st chan msg))
       \<and> pruned (snd (send_route st chan body_msg))"
  using assms
  by (simp add: pruned_connection pruned_close_handler pruned_emit_close pruned_publish
      pruned_send_route)

theorem registry_invariant_preserved_witness:
  "pruned room1_two
   \<and> pruned (connection room1_two 1 ''/room2'')
   \<and> pruned (close_handler ''room1'' 1 room1_two)
   \<and> pruned (emit_close room1_two 1)
   \<and> pruned (snd (publish room1_two ''room1'' (JStr ''hello'')))
   \<and> pruned (snd (send_route room1_two ''room1'' (Some (JStr ''hello''))))"
proof -
  have h: "pruned room1_two"
    by (simp add: pruned_iff room1_two_channels)
  show ?thesis
    by (rule conjI [OF h registry_invariant_preserved [OF h]])
qed

text \<open>
  Claim C6: a connection to channel \<open>chan\<close> by a socket that is already in the set of
  \<open>chan\<close> leaves the registry as it was. So after two connections of the same socket to
  the same channel the registry is the one after the first, and a publish hands that
  socket, when open, exactly one frame.
\<close>

theorem subscribe_idempotent:
  assumes "drop 1 url = chan" "chan \<noteq> []"
  shows "(h \<in> set (subscribers st chan) \<longrightarrow> channels (connection st h url) = channels st)
       \<and> channels (connection (connection st h url) h url) = channels (connection st h url)
       \<and> (distinct (subscribers st chan) \<and> readyState st h = OPEN \<longrightarrow>
            length (filter (\<lambda>f. fst f = h)
              (new_frames (connection (connection st h url) h url)
                 (snd (publish (connection (connection st h url) h url) chan msg)))) = 1)"
proof -
  have again: "channels (connection s h url) = channels s"
    if "h \<in> set (subscribers s chan)" for s
  proof -
    from that obtain clients where c: "channels s chan = Some clients" and "h \<in> set clients"
      by (cases "channels s chan") (auto simp: subscribers_def)
    then have "set_add (subscribers s chan) h = clients"
      by (simp add: set_add_def subscribers_def)
    then show ?thesis
      using c by (simp add: connection_channels [OF assms] map_upd_triv)
  qed
  let ?st1 = "connection st h url"
  let ?st2 = "connection ?st1 h url"
  have sub1: "subscribers ?st1 chan = set_add (subscribers st chan) h"
    by (simp add: subscribers_def connection_channels [OF assms])
  then have in1: "h \<in> set (subscribers ?st1 chan)"
    by (simp add: set_add_def)
  have twice: "channels ?st2 = channels ?st1"
    using in1 by (rule again)
  have once: "length (filter (\<lambda>f. fst f = h)
      (new_frames ?st2 (snd (publish ?st2 chan msg)))) = 1"
    if d: "distinct (subscribers st chan)" and r: "readyState st h = OPEN"
  proof -
    have "channels ?st1 chan = Some (set_add (subscribers st chan) h)"
      by (simp add: connection_channels [OF assms])
    then have c2: "channels ?st2 chan = Some (set_add (subscribers st chan) h)"
      by (simp only: twice)
    have r2: "readyState ?st2 h = OPEN"
      using r by (simp add: connection_readyState)
    have dist: "distinct (set_add (subscribers st chan) h)"
      using d by (rule distinct_set_add)
    have mem: "h \<in> set (set_add (subscribers st chan) h)"
      by (simp add: set_add_def)
    have frames: "new_frames ?st2 (snd (publish ?st2 chan msg)) =
        map (\<lambda>client. (client, envelope chan msg))
          (filter (\<lambda>client. readyState ?st2 client = OPEN) (set_add (subscribers st chan) h))"
      unfolding publish_new_frames [OF c2] live_def by (rule refl)
    show ?thesis
      unfolding frames
      by (rule frames_of_one [where P = "\<lambda>client. readyState ?st2 client = OPEN", OF dist mem r2])
  qed
  from again twice once show ?thesis by blast
qed

theorem subscribe_idempotent_witness:
  "drop 1 ''/room1'' = ''room1'' \<and> ''room1'' \<noteq> []
   \<and> 1 \<in> set (subscribers room1_one ''room1'')
   \<and> channels (connection room1_one 1 ''/room1'') = channels room1_one
   \<and> length (filter (\<lambda>f. fst f = 1)
        (new_frames (connection (connection (init all_open) 1 ''/room1'') 1 ''/room1'')
           (snd (publish (connection (connection (init all_open) 1 ''/room1'') 1 ''/room1'')
              ''room1'' (JStr ''hello''))))) = 1"
proof -
  have u: "drop 1 ''/room1'' = ''room1''"
    by simp
  have n: "''room1'' \<noteq> []"
    by simp
  have m: "1 \<in> set (subscribers room1_one ''room1'')"
    by (simp add: subscribers_def room1_one_channels)
  have d: "distinct (subscribers (init all_open) ''room1'')"
    by (simp add: subscribers_def init_def)
  have r: "readyState (init all_open) 1 = OPEN"
    by (simp add: init_def all_open_def)
  show ?thesis
    using u n m d r
      subscribe_idempotent [OF u n, of 1 room1_one "JStr ''hello''"]
      subscribe_idempotent [OF u n, of 1 "init all_open" "JStr ''hello''"]
    by blast
qed

text \<open>
  Claim C7: take a channel with a non-empty name, a registry that satisfies its invariant
  and a list of handles such that the channel's set holds none but these handles (the
  channel may be absent). After each of the handles has connected to the channel
  (subscribe) and the \<^verbatim>\<open>close\<close> listener of each has run (unsubscribe), the channel is
  absent from the registry: the removal that empties the set prunes the entry. With one
  handle \<open>h\<close> this is subscribe(C, h) followed by unsubscribe(C, h).
\<close>

theorem subscribe_unsubscribe_prunes:
  assumes "drop 1 url = chan" "chan \<noteq> []" "pruned st"
    and "set (subscribers st chan) \<subseteq> set hs"
  shows "channels (unsubscribe_all chan hs (subscribe_all st url hs)) chan = None"
proof -
  let ?st1 = "subscribe_all st url hs"
  let ?st2 = "unsubscribe_all chan hs ?st1"
  have "set (subscribers ?st2 chan) = (set (subscribers st chan) \<union> set hs) - set hs"
    by (simp only: unsubscribe_all_subscribers subscribe_all_subscribers [OF assms(1,2)])
  also have "\<dots> = {}"
    using assms(4) by simp
  finally have "set (subscribers ?st2 chan) = {}" .
  then have empty: "subscribers ?st2 chan = []"
    by simp
  have "pruned ?st2"
    using assms(3) by (intro pruned_unsubscribe_all pruned_subscribe_all)
  then show ?thesis
    using empty by (rule pruned_absent)
qed

theorem subscribe_unsubscribe_prunes_witness:
  "drop 1 ''/room1'' = ''room1'' \<and> ''room1'' \<noteq> [] \<and> pruned (init all_open)
   \<and> set (subscribers (init all_open) ''room1'') \<subseteq> set [1]
   \<and> channels (close_handler ''room1'' 1 (connection (init all_open) 1 ''/room1'')) ''room1''
       = None
   \<and> pruned room1_one \<and> set (subscribers room1_one ''room1'') \<subseteq> set [1, 2]
   \<and> channels (unsubscribe_all ''room1'' [1, 2] (subscribe_all room1_one ''/room1'' [1, 2]))
        ''room1'' = None"
proof -
  have u: "drop 1 ''/room1'' = ''room1''"
    by simp
  have n: "''room1'' \<noteq> []"
    by simp
  have p0: "pruned (init all_open)"
    by (rule pruned_init)
  have s0: "set (subscribers (init all_open) ''room1'') \<subseteq> set [1]"
    by (simp add: subscribers_def init_def)
  have s1: "set (subscribers room1_one ''room1'') \<subseteq> set [1, 2]"
    by (simp add: subscribers_def room1_one_channels)
  have single: "channels (close_handler ''room1'' 1 (connection (init all_open) 1 ''/room1''))
      ''room1'' = None"
    using subscribe_unsubscribe_prunes [OF u n p0 s0] by simp
  note both = subscribe_unsubscribe_prunes [OF u n pruned_room1_one s1]
  from u n p0 s0 single pruned_room1_one s1 both show ?thesis
    by blast
qed

text \<open>
  Claim C8: in a registry that satisfies its invariant, the \<^verbatim>\<open>close\<close> listener run for
  a channel that has no entry, or for a handle that is not in the channel's set, changes
  nothing; the listener has no failing branch (\<^verbatim>\<open>if (clients)\<close> guards the absent
  channel).
\<close>

theorem unsubscribe_absent_noop:
  assumes "pruned st"
    and "channels st chan = None \<or> h \<notin> set (subscribers st chan)"
  shows "close_handler chan h st = st"
proof (cases "channels st chan")
  case None
  then show ?thesis by (simp add: close_handler_def)
next
  case (Some clients)
  with assms(2) have "h \<notin> set clients"
    by (simp add: subscribers_def)
  moreover from assms(1) Some have "clients \<noteq> []"
    by (auto simp: pruned_iff)
  ultimately show ?thesis
    using Some by (simp add: close_handler_noop)
qed

theorem unsubscribe_absent_noop_witness:
  "pruned room1_two
   \<and> (channels room1_two ''room1'' = None \<or> 3 \<notin> set (subscribers room1_two ''room1''))
   \<and> close_handler ''room1'' 3 room1_two = room1_two
   \<and> (channels room1_two ''room2'' = None \<or> 1 \<notin> set (subscribers room1_two ''room2''))
   \<and> close_handler ''room2'' 1 room1_two = room1_two"
proof -
  have a: "channels room1_two ''room1'' = None \<or> 3 \<notin> set (subscribers room1_two ''room1'')"
    by (simp add: subscribers_def room1_two_channels)
  have b: "channels room1_two ''room2'' = None \<or> 1 \<notin> set (subscribers room1_two ''room2'')"
    by (simp add: room1_two_channels)
  show ?thesis
    by (intro conjI pruned_room1_two a b
        unsubscribe_absent_noop [OF pruned_room1_two a]
        unsubscribe_absent_noop [OF pruned_room1_two b])
qed

text \<open>
  Claim C9: a connection whose URL gives an empty channel name calls
  \<^verbatim>\<open>ws.close(1008, 'Channel required in URL')\<close> and returns: the registry and every
  handle set are as before, no \<^verbatim>\<open>close\<close> listener is registered, nothing is sent, and
  the later \<^verbatim>\<open>close\<close> event of that socket changes nothing either.
\<close>

theorem connection_without_channel:
  assumes "drop 1 url = []"
  shows "closeCalls (connection st sock url) =
           closeCalls st @ [(sock, 1008, ''Channel required in URL'')]
       \<and> channels (connection st sock url) = channels st
       \<and> subscribers (connection st sock url) = subscribers st
       \<and> closeListeners (connection st sock url) = closeListeners st
       \<and> sent (connection st sock url) = sent st
       \<and> (closeListeners st sock = [] \<longrightarrow>
            emit_close (connection st sock url) sock = connection st sock url)"
proof -
  note c = connection_empty [OF assms, of st sock]
  have chans: "channels (connection st sock url) = channels st"
    by (simp add: c)
  have subs: "subscribers (connection st sock url) = subscribers st"
    using chans by (rule subscribers_eq)
  have event: "closeListeners st sock = [] \<longrightarrow>
      emit_close (connection st sock url) sock = connection st sock url"
    by (simp add: c emit_close_def)
  from chans subs event show ?thesis
    by (simp add: c)
qed

theorem connection_without_channel_witness:
  "drop 1 ''/'' = []
   \<and> closeCalls (connection room1_two 3 ''/'') = [(3, 1008, ''Channel required in URL'')]
   \<and> channels (connection room1_two 3 ''/'') = channels room1_two
   \<and> subscribers (connection room1_two 3 ''/'') = subscribers room1_two
   \<and> closeListeners room1_two 3 = []
   \<and> emit_close (connection room1_two 3 ''/'') 3 = connection room1_two 3 ''/''"
proof -
  have u: "drop 1 ''/'' = []"
    by simp
  note w = connection_without_channel
    [OF u, of room1_two 3, unfolded room1_two_closeCalls append_Nil]
  note e = w [THEN conjunct2, THEN conjunct2, THEN conjunct2, THEN conjunct2, THEN conjunct2]
  show ?thesis
    by (intro conjI u w [THEN conjunct1] w [THEN conjunct2, THEN conjunct1]
        w [THEN conjunct2, THEN conjunct2, THEN conjunct1] room1_two_closeListeners
        e [THEN mp, OF room1_two_closeListeners])
qed

end
